theory Spec2Isabelle
  imports Complex_Main "HOL-Library.AList" "HOL-Library.Sublist"
begin

section \<open>The secure settings store of main.js\<close>

text \<open>
  The development embeds the settings store of \<^verbatim>\<open>src/main.js\<close> (the object
  \<^verbatim>\<open>secureStore\<close> with \<^verbatim>\<open>save\<close>, \<^verbatim>\<open>load\<close> and \<^verbatim>\<open>delete\<close>, and the
  facade functions \<^verbatim>\<open>loadSettings\<close> and \<^verbatim>\<open>saveSettings\<close>).

  What the program calls but does not define is the host: Electron's \<^verbatim>\<open>safeStorage\<close>,
  the built-in \<^verbatim>\<open>JSON\<close> object and the faults of Node's \<^verbatim>\<open>fs\<close> module. The host is a
  record of functions that every operation takes as its first argument. A call that
  throws in JavaScript returns \<open>None\<close> here. The files are a map from path to content;
  an operation takes the files and returns them updated. A write either happens
  whole or fails and changes nothing. Buffers and strings are both byte strings.
  Console output is not part of the model.
\<close>

subsection \<open>JSON values\<close>

text \<open>
  A value as \<^verbatim>\<open>JSON.parse\<close> produces it. An object is the list of its properties in
  insertion order. Numbers are the rationals (every finite double is one); the program
  only ever asks whether a number is zero.
\<close>

datatype json =
    JNull
  | JBool bool
  | JNum rat
  | JStr string
  | JArr "json list"
  | JObj "(string \<times> json) list"

text \<open>JavaScript's ToBoolean, as used by \<^verbatim>\<open>if (loaded)\<close>.\<close>

fun truthy :: "json \<Rightarrow> bool" where
  "truthy JNull = False"
| "truthy (JBool b) = b"
| "truthy (JNum x) = (x \<noteq> 0)"
| "truthy (JStr s) = (s \<noteq> [])"
| "truthy (JArr xs) = True"
| "truthy (JObj kvs) = True"

text \<open>The decimal numeral of an array index, the property key of an element.\<close>

fun indexKey :: "nat \<Rightarrow> string" where
  "indexKey n =
     (if n < 10 then [char_of (48 + n)]
      else indexKey (n div 10) @ [char_of (48 + n mod 10)])"

declare indexKey.simps [simp del]

text \<open>
  The own enumerable properties that the spread syntax \<^verbatim>\<open>...x\<close> copies: those of an
  object, the elements of an array and the characters of a string under their indices,
  and nothing for \<^verbatim>\<open>null\<close>, a boolean or a number.
\<close>

fun ownProps :: "json \<Rightarrow> (string \<times> json) list" where
  "ownProps (JObj kvs) = kvs"
| "ownProps (JArr xs) = zip (map indexKey [0..<length xs]) xs"
| "ownProps (JStr s) = zip (map indexKey [0..<length s]) (map (\<lambda>c. JStr [c]) s)"
| "ownProps JNull = []"
| "ownProps (JBool b) = []"
| "ownProps (JNum x) = []"

text \<open>
  \<^verbatim>\<open>{ ...obj, ...x }\<close> continues the object literal \<open>obj\<close> with the properties of
  \<open>x\<close>, one after the other: a key already there keeps its place and takes the new
  value, a new key goes to the end. (JavaScript lists keys that are array indices
  before all others; the list here keeps them where they were added. Nothing the store
  does looks at the position of a key.)
\<close>

definition spread :: "(string \<times> json) list \<Rightarrow> json \<Rightarrow> (string \<times> json) list" where
  "spread obj x = fold (\<lambda>(k, v). AList.update k v) (ownProps x) obj"

subsection \<open>The host\<close>

text \<open>
  \<open>JSON_stringify\<close> stands for \<^verbatim>\<open>JSON.stringify(data, null, 2)\<close>, which does not
  throw on a JSON value; \<open>ioFails\<close> says on which paths \<^verbatim>\<open>readFileSync\<close>,
  \<^verbatim>\<open>writeFileSync\<close> and \<^verbatim>\<open>unlinkSync\<close> throw for a reason other than a missing
  file.
\<close>

datatype fsop = OpRead | OpWrite | OpUnlink

record host =
  isEncryptionAvailable :: bool
  encryptString :: "string \<Rightarrow> string option"
  decryptString :: "string \<Rightarrow> string option"
  JSON_stringify :: "json \<Rightarrow> string"
  JSON_parse :: "string \<Rightarrow> json option"
  ioFails :: "fsop \<Rightarrow> string \<Rightarrow> bool"

type_synonym files = "string \<rightharpoonup> string"

definition existsSync :: "files \<Rightarrow> string \<Rightarrow> bool" where
  "existsSync fs p = (fs p \<noteq> None)"

definition readFileSync :: "host \<Rightarrow> string \<Rightarrow> files \<Rightarrow> string option" where
  "readFileSync H p fs = (if ioFails H OpRead p then None else fs p)"

definition writeFileSync :: "host \<Rightarrow> string \<Rightarrow> string \<Rightarrow> files \<Rightarrow> files option" where
  "writeFileSync H p content fs =
     (if ioFails H OpWrite p then None else Some (fs(p \<mapsto> content)))"

definition unlinkSync :: "host \<Rightarrow> string \<Rightarrow> files \<Rightarrow> files option" where
  "unlinkSync H p fs =
     (if ioFails H OpUnlink p \<or> fs p = None then None else Some (fs(p := None)))"

text \<open>
  \<^verbatim>\<open>s.replace(pat, rep)\<close> with a string pattern: the first occurrence of \<open>pat\<close>
  is replaced, and a string without one is returned as it is.
\<close>

fun replace_first :: "string \<Rightarrow> string \<Rightarrow> string \<Rightarrow> string" where
  "replace_first pat rep [] = (if pat = [] then rep else [])"
| "replace_first pat rep (c # cs) =
     (if prefix pat (c # cs) then rep @ drop (length pat) (c # cs)
      else c # replace_first pat rep cs)"

text \<open>
  The path of the old plaintext file, as \<^verbatim>\<open>load\<close> and \<^verbatim>\<open>delete\<close> compute it:
  \<^verbatim>\<open>filePath.replace('.enc', '.json')\<close>.
\<close>

abbreviation legacyPathOf :: "string \<Rightarrow> string" where
  "legacyPathOf filePath \<equiv> replace_first ''.enc'' ''.json'' filePath"

subsection \<open>Paths and defaults\<close>

text \<open>
  \<^verbatim>\<open>path.join(app.getPath('userData'), name)\<close>, for the directory the host hands
  out, is the directory, a separator and the name.
\<close>

definition settingsPath :: "string \<Rightarrow> string" where
  "settingsPath userData = userData @ ''/settings.enc''"

definition legacySettingsPath :: "string \<Rightarrow> string" where
  "legacySettingsPath userData = userData @ ''/settings.json''"

definition defaultSettings :: "(string \<times> json) list" where
  "defaultSettings =
     [(''startMinimized'', JBool False),
      (''minimizeToTray'', JBool True),
      (''startAtLogin'', JBool False)]"

subsection \<open>secureStore\<close>

definition secureStore_isAvailable :: "host \<Rightarrow> bool" where
  "secureStore_isAvailable H = isEncryptionAvailable H"

text \<open>
  \<^verbatim>\<open>save\<close>: every throw inside the \<^verbatim>\<open>try\<close> ends in the \<^verbatim>\<open>catch\<close>, which
  returns \<^verbatim>\<open>false\<close>; the files are then as they were.
\<close>

definition secureStore_save :: "host \<Rightarrow> string \<Rightarrow> json \<Rightarrow> files \<Rightarrow> bool \<times> files" where
  "secureStore_save H filePath data fs =
     (let jsonString = JSON_stringify H data in
      if isEncryptionAvailable H then
        (case encryptString H jsonString of
           None \<Rightarrow> (False, fs)
         | Some encrypted \<Rightarrow>
             (case writeFileSync H filePath encrypted fs of
                None \<Rightarrow> (False, fs)
              | Some fs' \<Rightarrow> (True, fs')))
      else
        (case writeFileSync H (filePath @ ''.json'') jsonString fs of
           None \<Rightarrow> (False, fs)
         | Some fs' \<Rightarrow> (True, fs')))"

text \<open>
  \<^verbatim>\<open>load\<close>: a throw inside the \<^verbatim>\<open>try\<close> and falling out of it both end at
  \<^verbatim>\<open>return defaultValue\<close>; what was written or removed before the throw stays so.
  The value \<^verbatim>\<open>save\<close> returns during the migration is not looked at.
\<close>

definition secureStore_load :: "host \<Rightarrow> string \<Rightarrow> json \<Rightarrow> files \<Rightarrow> json \<times> files" where
  "secureStore_load H filePath defaultValue fs =
     (let legacyPath = legacyPathOf filePath;
          tryLegacy =
            (if existsSync fs legacyPath then
               (case readFileSync H legacyPath fs of
                  None \<Rightarrow> (defaultValue, fs)
                | Some content \<Rightarrow>
                    (case JSON_parse H content of
                       None \<Rightarrow> (defaultValue, fs)
                     | Some parsed \<Rightarrow>
                         if isEncryptionAvailable H then
                           (let fs1 = snd (secureStore_save H filePath parsed fs) in
                            case unlinkSync H legacyPath fs1 of
                              None \<Rightarrow> (defaultValue, fs1)
                            | Some fs2 \<Rightarrow> (parsed, fs2))
                         else (parsed, fs)))
             else (defaultValue, fs))
      in
      if existsSync fs filePath then
        (case readFileSync H filePath fs of
           None \<Rightarrow> (defaultValue, fs)
         | Some encrypted \<Rightarrow>
             if isEncryptionAvailable H then
               (case decryptString H encrypted of
                  None \<Rightarrow> (defaultValue, fs)
                | Some decrypted \<Rightarrow>
                    (case JSON_parse H decrypted of
                       None \<Rightarrow> (defaultValue, fs)
                     | Some v \<Rightarrow> (v, fs)))
             else tryLegacy)
      else tryLegacy)"

text \<open>
  \<^verbatim>\<open>delete\<close>: the first \<^verbatim>\<open>unlinkSync\<close> that throws ends it with \<^verbatim>\<open>false\<close>.
\<close>

definition secureStore_delete :: "host \<Rightarrow> string \<Rightarrow> files \<Rightarrow> bool \<times> files" where
  "secureStore_delete H filePath fs =
     (case (if existsSync fs filePath then unlinkSync H filePath fs else Some fs) of
        None \<Rightarrow> (False, fs)
      | Some fs1 \<Rightarrow>
          (let legacyPath = legacyPathOf filePath in
           case (if existsSync fs1 legacyPath then unlinkSync H legacyPath fs1 else Some fs1) of
             None \<Rightarrow> (False, fs1)
           | Some fs2 \<Rightarrow> (True, fs2)))"

subsection \<open>The facade\<close>

definition loadSettings :: "host \<Rightarrow> string \<Rightarrow> files \<Rightarrow> json \<times> files" where
  "loadSettings H userData fs =
     (let (loaded, fs') = secureStore_load H (settingsPath userData) JNull fs in
      if truthy loaded then (JObj (spread (spread [] (JObj defaultSettings)) loaded), fs')
      else (JObj defaultSettings, fs'))"

definition saveSettings :: "host \<Rightarrow> string \<Rightarrow> json \<Rightarrow> files \<Rightarrow> bool \<times> files" where
  "saveSettings H userData settings fs = secureStore_save H (settingsPath userData) settings fs"

subsection \<open>A sample host and sample files\<close>

text \<open>
  The concrete inputs at which the theorems below are instantiated: a directory, a
  settings value with one known and one unknown key, the settings it merges to, the
  JSON texts of the handful of values used, and a host whose cipher puts a version
  tag before the text and whose file operations never fail.
\<close>

definition sampleDir :: string where
  "sampleDir = ''/cfg''"

definition sampleValue :: json where
  "sampleValue = JObj [(''startMinimized'', JBool True), (''zoom'', JNum 2)]"

definition sampleSettings :: json where
  "sampleSettings =
     JObj [(''startMinimized'', JBool True), (''minimizeToTray'', JBool True),
           (''startAtLogin'', JBool False), (''zoom'', JNum 2)]"

definition sampleTexts :: "(string \<times> json) list" where
  \<open>sampleTexts =
     [(''{"startMinimized":true,"zoom":2}'', sampleValue),
      (''{"startMinimized":true,"minimizeToTray":true,"startAtLogin":false,"zoom":2}'',
         sampleSettings),
      (''null'', JNull),
      (''false'', JBool False),
      (''0'', JNum 0)]\<close>

definition sampleStringify :: "json \<Rightarrow> string" where
  "sampleStringify v =
     (case find (\<lambda>(t, w). w = v) sampleTexts of Some (t, w) \<Rightarrow> t | None \<Rightarrow> ''null'')"

definition sampleHost :: "bool \<Rightarrow> host" where
  "sampleHost available =
     \<lparr>isEncryptionAvailable = available,
      encryptString = (\<lambda>s. Some (''v10'' @ s)),
      decryptString = (\<lambda>b. if take 3 b = ''v10'' then Some (drop 3 b) else None),
      JSON_stringify = sampleStringify,
      JSON_parse = map_of sampleTexts,
      ioFails = (\<lambda>operation p. False)\<rparr>"

text \<open>The same host with a keystore that refuses to encrypt.\<close>

definition lockedHost :: host where
  "lockedHost = (sampleHost True)\<lparr>encryptString := (\<lambda>s. None)\<rparr>"

text \<open>Only the old plaintext file; and the same with a file at the current path.\<close>

definition legacyFiles :: files where
  "legacyFiles = [''/cfg/settings.json'' \<mapsto> sampleStringify sampleValue]"

definition staleFiles :: files where
  "staleFiles = legacyFiles(''/cfg/settings.enc'' \<mapsto> ''v10null'')"

section \<open>Properties\<close>

lemmas store_defs =
  secureStore_load_def secureStore_save_def secureStore_delete_def
  existsSync_def readFileSync_def writeFileSync_def unlinkSync_def Let_def

lemmas sample_defs =
  sampleDir_def sampleValue_def sampleSettings_def sampleTexts_def sampleStringify_def
  sampleHost_def lockedHost_def legacyFiles_def staleFiles_def settingsPath_def
  defaultSettings_def

subsection \<open>Paths\<close>

lemma replace_first_length:
  "length (replace_first pat rep s) = length s \<or>
   length (replace_first pat rep s) + length pat = length s + length rep"
  by (induction s) (auto dest: prefix_length_le)

text \<open>The plaintext file that \<open>save\<close> falls back to is never the file \<open>load\<close> reads.\<close>

lemma legacyPathOf_neq_fallback: "legacyPathOf p \<noteq> p @ ''.json''"
proof
  assume "legacyPathOf p = p @ ''.json''"
  then have "length (legacyPathOf p) = length p + 5" by simp
  with replace_first_length [of "''.enc''" "''.json''" p] show False by simp
qed

lemma legacyPathOf_settingsPath_length:
  "length (legacyPathOf (settingsPath ud)) = Suc (length (settingsPath ud))"
  unfolding settingsPath_def
  by (induction ud) (auto dest: prefix_length_le)

lemma legacyPathOf_settingsPath_neq: "legacyPathOf (settingsPath ud) \<noteq> settingsPath ud"
  using legacyPathOf_settingsPath_length [of ud] by auto

text \<open>
  For a directory whose name does not contain \<open>.enc\<close>, the path that \<open>load\<close>
  computes is the one declared as \<open>legacySettingsPath\<close>.
\<close>

lemma legacyPathOf_settingsPath:
  "\<not> sublist ''.enc'' ud \<Longrightarrow> legacyPathOf (settingsPath ud) = legacySettingsPath ud"
  unfolding settingsPath_def legacySettingsPath_def
proof (induction ud)
  case Nil
  then show ?case by simp
next
  case (Cons c u)
  have n: "\<not> sublist ''.enc'' u"
    using Cons.prems by (auto simp: sublist_Cons_right)
  have p: "\<not> prefix ''.enc'' ((c # u) @ ''/settings.enc'')"
  proof
    assume "prefix ''.enc'' ((c # u) @ ''/settings.enc'')"
    then consider "prefix ''.enc'' (c # u)"
      | us where "''.enc'' = (c # u) @ us" "prefix us ''/settings.enc''"
      unfolding prefix_append by blast
    then show False
    proof cases
      case 1
      then show False using Cons.prems by (auto simp: sublist_Cons_right)
    next
      case 2
      then show False using Cons.prems
        by (cases u; cases us) (auto simp: Cons_eq_append_conv append_eq_Cons_conv)
    qed
  qed
  show ?case using p Cons.IH [OF n] by auto
qed

subsection \<open>Spread\<close>

lemma map_of_fold_update:
  "map_of (fold (\<lambda>(k, v). AList.update k v) kvs obj) = map_of obj ++ map_of (rev kvs)"
  by (induction kvs arbitrary: obj)
     (auto simp: AList.update_conv' map_add_def fun_eq_iff split: option.splits)

lemma spread_empty_defaultSettings: "spread [] (JObj defaultSettings) = defaultSettings"
  by (simp add: spread_def defaultSettings_def)

lemma ownProps_falsy: "\<not> truthy v \<Longrightarrow> ownProps v = []"
  by (cases v) auto

lemma None_eq_map_of_iff: "(None = map_of xs k) = (k \<notin> fst ` set xs)"
  by (metis map_of_eq_None_iff)

lemma map_of_rev_distinct: "distinct (map fst xs) \<Longrightarrow> map_of (rev xs) = map_of xs"
  by (induction xs)
     (auto simp: fun_eq_iff map_add_def map_of_eq_None_iff None_eq_map_of_iff image_iff
           split: option.splits)

lemma distinct_fold_update:
  "distinct (map fst obj) \<Longrightarrow> distinct (map fst (fold (\<lambda>(k, v). AList.update k v) kvs obj))"
  by (induction kvs arbitrary: obj) (auto simp: AList.distinct_update)

lemma distinct_spread_defaultSettings: "distinct (map fst (spread defaultSettings x))"
  unfolding spread_def by (rule distinct_fold_update) (simp add: defaultSettings_def)

lemma map_of_spread:
  "distinct (map fst (ownProps x)) \<Longrightarrow>
   map_of (spread obj x) k = (case map_of (ownProps x) k of Some y \<Rightarrow> Some y | None \<Rightarrow> map_of obj k)"
  by (simp add: spread_def map_of_fold_update map_add_def map_of_rev_distinct)

subsection \<open>Single steps of the store\<close>

lemma loadSettings_spread:
  "loadSettings H userData fs =
     (JObj (spread defaultSettings (fst (secureStore_load H (settingsPath userData) JNull fs))),
      snd (secureStore_load H (settingsPath userData) JNull fs))"
  by (cases "secureStore_load H (settingsPath userData) JNull fs")
     (simp add: loadSettings_def spread_empty_defaultSettings,
      simp add: spread_def ownProps_falsy)

lemma load_current:
  assumes "isEncryptionAvailable H"
      and "fs p = Some blob"
      and "\<not> ioFails H OpRead p"
      and "decryptString H blob = Some plain"
      and "JSON_parse H plain = Some v"
  shows "secureStore_load H p dv fs = (v, fs)"
  using assms by (simp add: store_defs)

lemma load_migrate:
  assumes "isEncryptionAvailable H"
      and "fs p = None"
      and "legacyPathOf p \<noteq> p"
      and "fs (legacyPathOf p) = Some content"
      and "\<not> ioFails H OpRead (legacyPathOf p)"
      and "JSON_parse H content = Some v"
      and "encryptString H (JSON_stringify H v) = Some blob"
      and "\<not> ioFails H OpWrite p"
      and "\<not> ioFails H OpUnlink (legacyPathOf p)"
  shows "secureStore_load H p dv fs = (v, fs(p \<mapsto> blob, legacyPathOf p := None))"
  using assms by (simp add: store_defs)

lemma save_encrypted:
  assumes "isEncryptionAvailable H"
      and "encryptString H (JSON_stringify H v) = Some blob"
      and "\<not> ioFails H OpWrite p"
  shows "secureStore_save H p v fs = (True, fs(p \<mapsto> blob))"
  using assms by (simp add: store_defs)

lemma save_plain:
  assumes "\<not> isEncryptionAvailable H"
      and "\<not> ioFails H OpWrite (p @ ''.json'')"
  shows "secureStore_save H p v fs = (True, fs(p @ ''.json'' \<mapsto> JSON_stringify H v))"
  using assms by (simp add: store_defs)

lemma load_ignores_other_files:
  assumes "\<not> isEncryptionAvailable H"
      and "q \<noteq> p"
      and "q \<noteq> legacyPathOf p"
  shows "fst (secureStore_load H p dv (fs(q \<mapsto> c))) = fst (secureStore_load H p dv fs)"
  using assms by (simp add: store_defs split: option.splits)

lemma load_decrypt_fails:
  assumes "isEncryptionAvailable H"
      and "fs p = Some blob"
      and "decryptString H blob = None \<or>
           (\<exists>plain. decryptString H blob = Some plain \<and> JSON_parse H plain = None)"
  shows "secureStore_load H p dv fs = (dv, fs)"
  using assms by (auto simp add: store_defs)

lemma load_unavailable:
  assumes "\<not> isEncryptionAvailable H"
      and "fs p = Some blob"
  shows "secureStore_load H p dv fs =
           (if ioFails H OpRead p then (dv, fs)
            else case fs (legacyPathOf p) of
                   None \<Rightarrow> (dv, fs)
                 | Some content \<Rightarrow>
                     if ioFails H OpRead (legacyPathOf p) then (dv, fs)
                     else (case JSON_parse H content of
                             None \<Rightarrow> (dv, fs)
                           | Some v \<Rightarrow> (v, fs)))"
  using assms by (auto simp add: store_defs split: option.splits)

subsection \<open>First run\<close>

text \<open>
  C6. When neither the current path nor the legacy path exists, \<open>loadSettings\<close>
  returns exactly the default settings (startMinimized false, minimizeToTray true,
  startAtLogin false), and the files are as they were: nothing is created, written or
  deleted.
\<close>

theorem loadSettings_first_run:
  assumes "fs (settingsPath userData) = None"
      and "fs (legacyPathOf (settingsPath userData)) = None"
  shows "loadSettings H userData fs =
           (JObj [(''startMinimized'', JBool False),
                  (''minimizeToTray'', JBool True),
                  (''startAtLogin'', JBool False)], fs)"
  using assms by (simp add: loadSettings_def store_defs defaultSettings_def)

theorem loadSettings_first_run_witness:
  "loadSettings (sampleHost True) sampleDir Map.empty = (JObj defaultSettings, Map.empty)"
  using loadSettings_first_run [of Map.empty sampleDir "sampleHost True"]
  by (simp add: defaultSettings_def)

subsection \<open>Falsy values\<close>

text \<open>
  C10. When the stored blob decodes to a falsy JSON value (null, false, 0 or the empty
  string), the store's \<open>load\<close> returns that value without error, and the facade
  \<open>loadSettings\<close> discards it and returns exactly the default settings.
\<close>

theorem loadSettings_falsy_blob:
  assumes "fs (settingsPath userData) = Some blob"
      and "\<not> ioFails H OpRead (settingsPath userData)"
      and "isEncryptionAvailable H"
      and "decryptString H blob = Some plain"
      and "JSON_parse H plain = Some v"
      and "v = JNull \<or> v = JBool False \<or> v = JNum 0 \<or> v = JStr ''''"
  shows "secureStore_load H (settingsPath userData) JNull fs = (v, fs) \<and>
         loadSettings H userData fs = (JObj defaultSettings, fs)"
  using assms by (auto simp add: loadSettings_def store_defs)

theorem loadSettings_falsy_blob_witness:
  "secureStore_load (sampleHost True) (settingsPath sampleDir) JNull
       [settingsPath sampleDir \<mapsto> ''v100''] = (JNum 0, [settingsPath sampleDir \<mapsto> ''v100'']) \<and>
   loadSettings (sampleHost True) sampleDir [settingsPath sampleDir \<mapsto> ''v100''] =
     (JObj defaultSettings, [settingsPath sampleDir \<mapsto> ''v100''])"
  by (rule loadSettings_falsy_blob [where blob = "''v100''" and plain = "''0''"])
     (simp_all add: sample_defs)


subsection \<open>A legacy file without encryption\<close>

text \<open>
  C5. When the current path does not exist and encryption is unavailable, \<open>load\<close>
  leaves the files as they are, whatever the legacy file holds: the legacy file stays
  with its content, no migration is attempted and nothing is written to the current
  path. When the legacy content can be read and parsed, \<open>load\<close> returns its value
  as it is, and \<open>loadSettings\<close> returns it merged onto the defaults.
\<close>

theorem load_legacy_without_encryption:
  assumes "\<not> isEncryptionAvailable H"
      and "fs (settingsPath userData) = None"
      and "fs (legacyPathOf (settingsPath userData)) = Some content"
  shows "snd (secureStore_load H (settingsPath userData) dv fs) = fs \<and>
         snd (loadSettings H userData fs) = fs \<and>
         (\<forall>v. \<not> ioFails H OpRead (legacyPathOf (settingsPath userData)) \<and>
                JSON_parse H content = Some v \<longrightarrow>
              secureStore_load H (settingsPath userData) dv fs = (v, fs) \<and>
              loadSettings H userData fs = (JObj (spread defaultSettings v), fs))"
  using assms
  by (auto simp add: loadSettings_spread store_defs split: option.splits)

theorem load_legacy_without_encryption_witness:
  "snd (secureStore_load (sampleHost False) (settingsPath sampleDir) JNull legacyFiles) = legacyFiles \<and>
   snd (loadSettings (sampleHost False) sampleDir legacyFiles) = legacyFiles \<and>
   secureStore_load (sampleHost False) (settingsPath sampleDir) JNull legacyFiles =
     (sampleValue, legacyFiles) \<and>
   loadSettings (sampleHost False) sampleDir legacyFiles = (sampleSettings, legacyFiles)"
proof -
  have m: "JObj (spread defaultSettings sampleValue) = sampleSettings"
    by (simp add: spread_def sample_defs)
  have a: "\<not> isEncryptionAvailable (sampleHost False)"
    by (simp add: sampleHost_def)
  have b: "legacyFiles (settingsPath sampleDir) = None"
    by (simp add: sample_defs)
  have c: "legacyFiles (legacyPathOf (settingsPath sampleDir)) = Some (sampleStringify sampleValue)"
    by (simp add: sample_defs)
  have d: "\<not> ioFails (sampleHost False) OpRead (legacyPathOf (settingsPath sampleDir)) \<and>
           JSON_parse (sampleHost False) (sampleStringify sampleValue) = Some sampleValue"
    by (simp add: sample_defs)
  from load_legacy_without_encryption [OF a b c, of JNull] d show ?thesis
    unfolding m [symmetric] by blast
qed

subsection \<open>Delete\<close>

text \<open>
  C8. When no \<open>unlinkSync\<close> fails, \<open>delete\<close> returns true and removes the current
  file and the legacy file where present. It is idempotent: a second call returns
  true and changes nothing, and so does every call on files where neither path exists.
\<close>

theorem delete_removes_both_idempotent:
  assumes "\<not> ioFails H OpUnlink p"
      and "\<not> ioFails H OpUnlink (legacyPathOf p)"
  shows "secureStore_delete H p fs = (True, fs(p := None, legacyPathOf p := None)) \<and>
         secureStore_delete H' p (snd (secureStore_delete H p fs)) =
           (True, snd (secureStore_delete H p fs)) \<and>
         (\<forall>fs'. fs' p = None \<and> fs' (legacyPathOf p) = None \<longrightarrow>
            secureStore_delete H' p fs' = (True, fs'))"
  using assms
  by (auto simp add: store_defs fun_upd_idem)

theorem delete_removes_both_idempotent_witness:
  "secureStore_delete (sampleHost True) (settingsPath sampleDir) staleFiles = (True, Map.empty) \<and>
   secureStore_delete lockedHost (settingsPath sampleDir) Map.empty = (True, Map.empty)"
proof -
  have a: "\<not> ioFails (sampleHost True) OpUnlink (settingsPath sampleDir)"
    by (simp add: sample_defs)
  have b: "\<not> ioFails (sampleHost True) OpUnlink (legacyPathOf (settingsPath sampleDir))"
    by (simp add: sample_defs)
  have c: "staleFiles(settingsPath sampleDir := None, legacyPathOf (settingsPath sampleDir) := None) = Map.empty"
    by (simp add: sample_defs)
  from delete_removes_both_idempotent [OF a b, of staleFiles lockedHost] c show ?thesis
    by simp
qed

text \<open>
  C9. After a \<open>save\<close> with encryption unavailable, the plaintext is in the file
  \<open>settings.enc.json\<close> (the current path followed by \<open>.json\<close>). \<open>delete\<close> leaves
  that file in place: it touches no path other than the current path
  \<open>settings.enc\<close> and the legacy path.
\<close>

theorem delete_keeps_fallback_file:
  assumes "\<not> isEncryptionAvailable H"
      and "secureStore_save H (settingsPath userData) v fs = (True, fs1)"
  shows "fs1 (userData @ ''/settings.enc.json'') = Some (JSON_stringify H v) \<and>
         (\<forall>H' fs'. snd (secureStore_delete H' (settingsPath userData) fs') (userData @ ''/settings.enc.json'')
                     = fs' (userData @ ''/settings.enc.json'')) \<and>
         (\<forall>H' fs' q. q \<noteq> settingsPath userData \<and> q \<noteq> legacyPathOf (settingsPath userData) \<longrightarrow>
            snd (secureStore_delete H' (settingsPath userData) fs') q = fs' q)"
proof -
  have p: "userData @ ''/settings.enc.json'' = settingsPath userData @ ''.json''"
    by (simp add: settingsPath_def)
  have frame: "snd (secureStore_delete H' f fs') q = fs' q"
    if "q \<noteq> f" "q \<noteq> legacyPathOf f" for H' f fs' q
    using that by (auto simp add: store_defs)
  have "fs1 (settingsPath userData @ ''.json'') = Some (JSON_stringify H v)"
    using assms by (auto simp add: store_defs split: if_splits)
  moreover have "settingsPath userData @ ''.json'' \<noteq> settingsPath userData" by simp
  moreover have "settingsPath userData @ ''.json'' \<noteq> legacyPathOf (settingsPath userData)"
    using legacyPathOf_neq_fallback [of "settingsPath userData"] by metis
  ultimately show ?thesis
    unfolding p using frame by metis
qed

theorem delete_keeps_fallback_file_witness:
  "snd (secureStore_delete (sampleHost True) (settingsPath sampleDir)
          (snd (secureStore_save (sampleHost False) (settingsPath sampleDir) sampleValue staleFiles)))
     ''/cfg/settings.enc.json'' = Some (sampleStringify sampleValue)"
proof -
  let ?fs1 = "staleFiles(''/cfg/settings.enc.json'' \<mapsto> sampleStringify sampleValue)"
  have a: "\<not> isEncryptionAvailable (sampleHost False)"
    by (simp add: sampleHost_def)
  have b: "secureStore_save (sampleHost False) (settingsPath sampleDir) sampleValue staleFiles = (True, ?fs1)"
    by (simp add: secureStore_save_def writeFileSync_def sampleHost_def settingsPath_def sampleDir_def)
  from delete_keeps_fallback_file [OF a b] b show ?thesis
    by (simp add: sampleDir_def sampleHost_def)
qed

subsection \<open>Migration\<close>

text \<open>
  C4. With encryption available, the current path absent and a legacy plaintext file
  that parses to \<open>v\<close>, and with no failing file operation and a keystore that
  encrypts and decrypts the text of \<open>v\<close>: \<open>loadSettings\<close> returns \<open>v\<close> merged onto
  the defaults; afterwards the legacy file is gone, the current path holds the one
  encrypted file, whose decrypted content is \<open>v\<close>, and every other path is as before.
  A second \<open>loadSettings\<close> returns the same settings and leaves the files unchanged.
\<close>

theorem load_migrates_once:
  assumes "isEncryptionAvailable H"
      and "fs (settingsPath userData) = None"
      and "fs (legacyPathOf (settingsPath userData)) = Some content"
      and "JSON_parse H content = Some v"
      and "encryptString H (JSON_stringify H v) = Some blob"
      and "decryptString H blob = Some (JSON_stringify H v)"
      and "JSON_parse H (JSON_stringify H v) = Some v"
      and "\<not> ioFails H OpRead (legacyPathOf (settingsPath userData))"
      and "\<not> ioFails H OpWrite (settingsPath userData)"
      and "\<not> ioFails H OpUnlink (legacyPathOf (settingsPath userData))"
      and "\<not> ioFails H OpRead (settingsPath userData)"
  shows "\<exists>fs'. loadSettings H userData fs = (JObj (spread defaultSettings v), fs') \<and>
           fs' (legacyPathOf (settingsPath userData)) = None \<and>
           fs' (settingsPath userData) = Some blob \<and>
           Option.bind (decryptString H blob) (JSON_parse H) = Some v \<and>
           (\<forall>q. q \<noteq> settingsPath userData \<and> q \<noteq> legacyPathOf (settingsPath userData) \<longrightarrow>
                fs' q = fs q) \<and>
           loadSettings H userData fs' = (JObj (spread defaultSettings v), fs')"
proof -
  let ?p = "settingsPath userData"
  let ?fs' = "fs(?p \<mapsto> blob, legacyPathOf ?p := None)"
  have neq: "legacyPathOf ?p \<noteq> ?p"
    by (rule legacyPathOf_settingsPath_neq)
  have first: "secureStore_load H ?p JNull fs = (v, ?fs')"
    using assms neq by (intro load_migrate) simp_all
  have "?fs' ?p = Some blob"
    using neq by simp
  then have second: "secureStore_load H ?p JNull ?fs' = (v, ?fs')"
    using assms by (intro load_current [where blob = blob and plain = "JSON_stringify H v"]) simp_all
  show ?thesis
    using neq assms(6,7)
    by (intro exI [of _ ?fs']) (simp add: loadSettings_spread first second)
qed

theorem load_migrates_once_witness:
  "loadSettings (sampleHost True) sampleDir legacyFiles =
     (sampleSettings, [''/cfg/settings.enc'' \<mapsto> ''v10'' @ sampleStringify sampleValue]) \<and>
   loadSettings (sampleHost True) sampleDir [''/cfg/settings.enc'' \<mapsto> ''v10'' @ sampleStringify sampleValue] =
     (sampleSettings, [''/cfg/settings.enc'' \<mapsto> ''v10'' @ sampleStringify sampleValue])"
proof -
  let ?H = "sampleHost True"
  let ?blob = "''v10'' @ sampleStringify sampleValue"
  have p: "settingsPath sampleDir = ''/cfg/settings.enc''"
          "legacyPathOf (settingsPath sampleDir) = ''/cfg/settings.json''"
    by (simp_all add: settingsPath_def sampleDir_def)
  have m: "JObj (spread defaultSettings sampleValue) = sampleSettings"
    by (simp add: spread_def sample_defs)
  have h: "isEncryptionAvailable ?H"
      "legacyFiles (settingsPath sampleDir) = None"
      "legacyFiles (legacyPathOf (settingsPath sampleDir)) = Some (sampleStringify sampleValue)"
      "JSON_parse ?H (sampleStringify sampleValue) = Some sampleValue"
      "encryptString ?H (JSON_stringify ?H sampleValue) = Some ?blob"
      "decryptString ?H ?blob = Some (JSON_stringify ?H sampleValue)"
      "JSON_parse ?H (JSON_stringify ?H sampleValue) = Some sampleValue"
      "\<not> ioFails ?H OpRead (legacyPathOf (settingsPath sampleDir))"
      "\<not> ioFails ?H OpWrite (settingsPath sampleDir)"
      "\<not> ioFails ?H OpUnlink (legacyPathOf (settingsPath sampleDir))"
      "\<not> ioFails ?H OpRead (settingsPath sampleDir)"
    by (simp_all add: sample_defs)
  from load_migrates_once [OF h] obtain fs' where
    r: "loadSettings ?H sampleDir legacyFiles = (JObj (spread defaultSettings sampleValue), fs')"
       "fs' (legacyPathOf (settingsPath sampleDir)) = None"
       "fs' (settingsPath sampleDir) = Some ?blob"
       "Option.bind (decryptString ?H ?blob) (JSON_parse ?H) = Some sampleValue"
       "\<forall>q. q \<noteq> settingsPath sampleDir \<and> q \<noteq> legacyPathOf (settingsPath sampleDir) \<longrightarrow> fs' q = legacyFiles q"
       "loadSettings ?H sampleDir fs' = (JObj (spread defaultSettings sampleValue), fs')"
    by blast
  have "fs' = [''/cfg/settings.enc'' \<mapsto> ?blob]"
  proof
    fix q
    show "fs' q = [''/cfg/settings.enc'' \<mapsto> ?blob] q"
      using r(2,3,5) unfolding p by (cases "q = ''/cfg/settings.enc''"; cases "q = ''/cfg/settings.json''") (simp_all add: legacyFiles_def)
  qed
  with r(1,6) m show ?thesis by simp
qed

text \<open>
  C2 (the code departs from the claim). With encryption available, the current path
  absent and a legacy file that parses to \<open>v\<close>: when the encrypted write fails
  (\<open>encryptString\<close> or \<open>writeFileSync\<close> throws), \<open>save\<close> returns false, and
  \<open>load\<close>, which does not look at that result, removes the legacy file all the same.
  Afterwards neither the current nor the legacy path exists.
\<close>

theorem load_migration_unlinks_after_failed_save:
  assumes "isEncryptionAvailable H"
      and "fs (settingsPath userData) = None"
      and "fs (legacyPathOf (settingsPath userData)) = Some content"
      and "\<not> ioFails H OpRead (legacyPathOf (settingsPath userData))"
      and "JSON_parse H content = Some v"
      and "encryptString H (JSON_stringify H v) = None \<or> ioFails H OpWrite (settingsPath userData)"
      and "\<not> ioFails H OpUnlink (legacyPathOf (settingsPath userData))"
  shows "secureStore_save H (settingsPath userData) v fs = (False, fs) \<and>
         secureStore_load H (settingsPath userData) dv fs =
           (v, fs(legacyPathOf (settingsPath userData) := None)) \<and>
         snd (secureStore_load H (settingsPath userData) dv fs) (settingsPath userData) = None \<and>
         snd (secureStore_load H (settingsPath userData) dv fs)
           (legacyPathOf (settingsPath userData)) = None"
  using assms by (auto simp add: store_defs split: option.splits)

theorem load_migration_unlinks_after_failed_save_witness:
  "secureStore_save lockedHost (settingsPath sampleDir) sampleValue legacyFiles = (False, legacyFiles) \<and>
   secureStore_load lockedHost (settingsPath sampleDir) JNull legacyFiles = (sampleValue, Map.empty)"
proof -
  have h: "isEncryptionAvailable lockedHost"
      "legacyFiles (settingsPath sampleDir) = None"
      "legacyFiles (legacyPathOf (settingsPath sampleDir)) = Some (sampleStringify sampleValue)"
      "\<not> ioFails lockedHost OpRead (legacyPathOf (settingsPath sampleDir))"
      "JSON_parse lockedHost (sampleStringify sampleValue) = Some sampleValue"
      "encryptString lockedHost (JSON_stringify lockedHost sampleValue) = None \<or>
         ioFails lockedHost OpWrite (settingsPath sampleDir)"
      "\<not> ioFails lockedHost OpUnlink (legacyPathOf (settingsPath sampleDir))"
    by (simp_all add: sample_defs)
  have e: "legacyFiles(legacyPathOf (settingsPath sampleDir) := None) = Map.empty"
    by (simp add: sample_defs)
  from load_migration_unlinks_after_failed_save [OF h, of JNull] show ?thesis
    unfolding e by simp
qed

subsection \<open>Decryption failure\<close>

text \<open>
  C3, as stated, fails when the keystore is unavailable: with a file at the current
  path and encryption unavailable, \<open>load\<close> goes on to the legacy file and returns
  its value, not the defaults.
\<close>

theorem load_unavailable_reads_legacy_counterexample:
  "existsSync staleFiles (settingsPath sampleDir) \<and>
   \<not> isEncryptionAvailable (sampleHost False) \<and>
   loadSettings (sampleHost False) sampleDir staleFiles = (sampleSettings, staleFiles) \<and>
   sampleSettings \<noteq> JObj defaultSettings"
  by (simp add: loadSettings_def store_defs spread_def sample_defs)

text \<open>
  C3 (amended). Whenever the current path exists and decryption fails, \<open>loadSettings\<close>
  returns a value (it does not raise) and leaves the files unchanged.
  With encryption available, when \<open>decryptString\<close> throws (corrupt blob, key mismatch)
  or the decrypted text does not parse, it returns the default settings, whatever the
  legacy file holds: the legacy file is not read.
  With the keystore unavailable although the file exists, it returns the default
  settings when the current file cannot be read, or when the legacy file is absent,
  cannot be read or does not parse; only when the current file can be read and the
  legacy file exists, can be read and parses to \<open>v\<close> does \<open>load\<close> go on to the
  legacy file, and \<open>loadSettings\<close> returns \<open>v\<close> merged onto the defaults.
\<close>

theorem load_decrypt_failure_gives_defaults:
  assumes "fs (settingsPath userData) = Some blob"
  shows "(isEncryptionAvailable H \<and>
            (decryptString H blob = None \<or>
             (\<exists>plain. decryptString H blob = Some plain \<and> JSON_parse H plain = None)) \<longrightarrow>
            loadSettings H userData fs = (JObj defaultSettings, fs) \<and>
            (\<forall>content.
               loadSettings H userData (fs(legacyPathOf (settingsPath userData) \<mapsto> content)) =
                 (JObj defaultSettings, fs(legacyPathOf (settingsPath userData) \<mapsto> content)))) \<and>
         (\<not> isEncryptionAvailable H \<longrightarrow>
            snd (loadSettings H userData fs) = fs \<and>
            (ioFails H OpRead (settingsPath userData) \<or>
             fs (legacyPathOf (settingsPath userData)) = None \<or>
             ioFails H OpRead (legacyPathOf (settingsPath userData)) \<or>
             (\<exists>content. fs (legacyPathOf (settingsPath userData)) = Some content \<and>
                        JSON_parse H content = None) \<longrightarrow>
               loadSettings H userData fs = (JObj defaultSettings, fs)) \<and>
            (\<forall>content v.
               \<not> ioFails H OpRead (settingsPath userData) \<and>
               fs (legacyPathOf (settingsPath userData)) = Some content \<and>
               \<not> ioFails H OpRead (legacyPathOf (settingsPath userData)) \<and>
               JSON_parse H content = Some v \<longrightarrow>
               loadSettings H userData fs = (JObj (spread defaultSettings v), fs)))"
proof (intro conjI impI allI)
  let ?p = "settingsPath userData"
  have d: "spread defaultSettings JNull = defaultSettings"
    by (simp add: spread_def)
  {
    assume a: "isEncryptionAvailable H \<and>
            (decryptString H blob = None \<or>
             (\<exists>plain. decryptString H blob = Some plain \<and> JSON_parse H plain = None))"
    have l: "secureStore_load H ?p JNull fs' = (JNull, fs')" if "fs' ?p = Some blob" for fs'
      using a that by (intro load_decrypt_fails [where blob = blob]) simp_all
    show "loadSettings H userData fs = (JObj defaultSettings, fs)"
      using l [of fs, OF assms] by (simp add: loadSettings_spread d)
    fix content
    have "(fs(legacyPathOf ?p \<mapsto> content)) ?p = Some blob"
      using assms legacyPathOf_settingsPath_neq [of userData] by simp
    from l [of "fs(legacyPathOf ?p \<mapsto> content)", OF this]
    show "loadSettings H userData (fs(legacyPathOf ?p \<mapsto> content)) =
            (JObj defaultSettings, fs(legacyPathOf ?p \<mapsto> content))"
      by (simp add: loadSettings_spread d)
  }
  {
    assume n: "\<not> isEncryptionAvailable H"
    note u = load_unavailable [where fs = fs and p = ?p and blob = blob and dv = JNull, OF n assms]
    show "snd (loadSettings H userData fs) = fs"
      unfolding loadSettings_spread u by (simp split: option.splits)
    show "loadSettings H userData fs = (JObj defaultSettings, fs)"
      if "ioFails H OpRead ?p \<or> fs (legacyPathOf ?p) = None \<or>
          ioFails H OpRead (legacyPathOf ?p) \<or>
          (\<exists>content. fs (legacyPathOf ?p) = Some content \<and> JSON_parse H content = None)"
      using that unfolding loadSettings_spread u by (auto simp add: d split: option.splits)
    show "loadSettings H userData fs = (JObj (spread defaultSettings v), fs)"
      if "\<not> ioFails H OpRead ?p \<and> fs (legacyPathOf ?p) = Some content \<and>
          \<not> ioFails H OpRead (legacyPathOf ?p) \<and> JSON_parse H content = Some v"
      for content v
      using that unfolding loadSettings_spread u by simp
  }
qed

theorem load_decrypt_failure_gives_defaults_witness:
  "loadSettings (sampleHost True) sampleDir
       [''/cfg/settings.enc'' \<mapsto> ''garbage'', ''/cfg/settings.json'' \<mapsto> sampleStringify sampleValue] =
     (JObj defaultSettings,
      [''/cfg/settings.enc'' \<mapsto> ''garbage'', ''/cfg/settings.json'' \<mapsto> sampleStringify sampleValue]) \<and>
   loadSettings (sampleHost True) sampleDir [''/cfg/settings.enc'' \<mapsto> ''v10garbage''] =
     (JObj defaultSettings, [''/cfg/settings.enc'' \<mapsto> ''v10garbage'']) \<and>
   loadSettings (sampleHost False) sampleDir [''/cfg/settings.enc'' \<mapsto> ''v10null''] =
     (JObj defaultSettings, [''/cfg/settings.enc'' \<mapsto> ''v10null'']) \<and>
   loadSettings (sampleHost False) sampleDir staleFiles = (sampleSettings, staleFiles)"
proof -
  let ?T = "sampleHost True" and ?F = "sampleHost False"
  let ?g = "[''/cfg/settings.enc'' \<mapsto> ''garbage'']"
  let ?h = "[''/cfg/settings.enc'' \<mapsto> ''v10garbage'']"
  let ?n = "[''/cfg/settings.enc'' \<mapsto> ''v10null'']"
  have p: "settingsPath sampleDir = ''/cfg/settings.enc''"
          "legacyPathOf (settingsPath sampleDir) = ''/cfg/settings.json''"
          "legacyPathOf ''/cfg/settings.enc'' = ''/cfg/settings.json''"
    by (simp_all add: settingsPath_def sampleDir_def)
  have m: "JObj (spread defaultSettings sampleValue) = sampleSettings"
    by (simp add: spread_def sample_defs)
  have g: "?g (settingsPath sampleDir) = Some ''garbage''"
    unfolding p by simp
  have gh: "isEncryptionAvailable ?T \<and>
      (decryptString ?T ''garbage'' = None \<or>
       (\<exists>plain. decryptString ?T ''garbage'' = Some plain \<and> JSON_parse ?T plain = None))"
    by (simp add: sample_defs)
  have h: "?h (settingsPath sampleDir) = Some ''v10garbage''"
    unfolding p by simp
  have hh: "isEncryptionAvailable ?T \<and>
      (decryptString ?T ''v10garbage'' = None \<or>
       (\<exists>plain. decryptString ?T ''v10garbage'' = Some plain \<and> JSON_parse ?T plain = None))"
    by (simp add: sample_defs)
  have n: "?n (settingsPath sampleDir) = Some ''v10null''"
    unfolding p by simp
  have nh: "\<not> isEncryptionAvailable ?F"
      "ioFails ?F OpRead (settingsPath sampleDir) \<or>
       ?n (legacyPathOf (settingsPath sampleDir)) = None \<or>
       ioFails ?F OpRead (legacyPathOf (settingsPath sampleDir)) \<or>
       (\<exists>content. ?n (legacyPathOf (settingsPath sampleDir)) = Some content \<and>
                  JSON_parse ?F content = None)"
    unfolding p by (simp_all add: sample_defs)
  have s: "staleFiles (settingsPath sampleDir) = Some ''v10null''"
    unfolding p by (simp add: staleFiles_def)
  have sh: "\<not> ioFails ?F OpRead (settingsPath sampleDir) \<and>
      staleFiles (legacyPathOf (settingsPath sampleDir)) = Some (sampleStringify sampleValue) \<and>
      \<not> ioFails ?F OpRead (legacyPathOf (settingsPath sampleDir)) \<and>
      JSON_parse ?F (sampleStringify sampleValue) = Some sampleValue"
    unfolding p by (simp add: sample_defs)
  from load_decrypt_failure_gives_defaults
         [where fs = ?g and userData = sampleDir and blob = "''garbage''" and H = ?T, OF g] gh
  have 1: "loadSettings ?T sampleDir (?g(''/cfg/settings.json'' \<mapsto> sampleStringify sampleValue)) =
     (JObj defaultSettings, ?g(''/cfg/settings.json'' \<mapsto> sampleStringify sampleValue))"
    unfolding p by blast
  from load_decrypt_failure_gives_defaults
         [where fs = ?h and userData = sampleDir and blob = "''v10garbage''" and H = ?T, OF h] hh
  have 2: "loadSettings ?T sampleDir ?h = (JObj defaultSettings, ?h)"
    by blast
  from load_decrypt_failure_gives_defaults
         [where fs = ?n and userData = sampleDir and blob = "''v10null''" and H = ?F, OF n] nh
  have 3: "loadSettings ?F sampleDir ?n = (JObj defaultSettings, ?n)"
    by blast
  from load_decrypt_failure_gives_defaults
         [where fs = staleFiles and userData = sampleDir and blob = "''v10null''" and H = ?F, OF s]
       nh(1) sh
  have 4: "loadSettings ?F sampleDir staleFiles = (sampleSettings, staleFiles)"
    unfolding m [symmetric] by blast
  from 1 2 3 4 show ?thesis by simp
qed

subsection \<open>Shallow merge\<close>

text \<open>
  C7. When the store returns an object, \<open>loadSettings\<close> returns it merged onto the
  defaults: per key the loaded value wins, and a key the loaded object lacks takes the
  default. The object with only startMinimized true merges to startMinimized true,
  minimizeToTray true, startAtLogin false. Saving the merged settings writes the text
  of all of them; with encryption available, a load after that save returns every key
  of the loaded object with its value, unknown keys included.
\<close>

theorem loadSettings_shallow_merge:
  assumes "secureStore_load H (settingsPath userData) JNull fs = (JObj kvs, fs1)"
      and "distinct (map fst kvs)"
      and "merged = spread defaultSettings (JObj kvs)"
  shows "loadSettings H userData fs = (JObj merged, fs1) \<and>
         (\<forall>k. map_of merged k =
                (case map_of kvs k of Some x \<Rightarrow> Some x | None \<Rightarrow> map_of defaultSettings k)) \<and>
         spread defaultSettings (JObj [(''startMinimized'', JBool True)]) =
           [(''startMinimized'', JBool True), (''minimizeToTray'', JBool True),
            (''startAtLogin'', JBool False)] \<and>
         (\<not> isEncryptionAvailable H \<and>
          \<not> ioFails H OpWrite (settingsPath userData @ ''.json'') \<longrightarrow>
            saveSettings H userData (JObj merged) fs1 =
              (True, fs1(settingsPath userData @ ''.json'' \<mapsto> JSON_stringify H (JObj merged)))) \<and>
         (\<forall>blob. isEncryptionAvailable H \<and>
            encryptString H (JSON_stringify H (JObj merged)) = Some blob \<and>
            decryptString H blob = Some (JSON_stringify H (JObj merged)) \<and>
            JSON_parse H (JSON_stringify H (JObj merged)) = Some (JObj merged) \<and>
            \<not> ioFails H OpWrite (settingsPath userData) \<and>
            \<not> ioFails H OpRead (settingsPath userData) \<longrightarrow>
            (\<exists>fs2 again.
               saveSettings H userData (JObj merged) fs1 = (True, fs2) \<and>
               loadSettings H userData fs2 = (JObj again, fs2) \<and>
               (\<forall>k x. map_of kvs k = Some x \<longrightarrow> map_of again k = Some x)))"
proof (intro conjI allI impI)
  show l: "loadSettings H userData fs = (JObj merged, fs1)"
    using assms by (simp add: loadSettings_spread)
  show m: "map_of merged k =
           (case map_of kvs k of Some x \<Rightarrow> Some x | None \<Rightarrow> map_of defaultSettings k)" for k
    using assms(2) unfolding assms(3) by (simp add: map_of_spread)
  show "spread defaultSettings (JObj [(''startMinimized'', JBool True)]) =
          [(''startMinimized'', JBool True), (''minimizeToTray'', JBool True),
           (''startAtLogin'', JBool False)]"
    by (simp add: spread_def defaultSettings_def)
  show "saveSettings H userData (JObj merged) fs1 =
          (True, fs1(settingsPath userData @ ''.json'' \<mapsto> JSON_stringify H (JObj merged)))"
    if "\<not> isEncryptionAvailable H \<and> \<not> ioFails H OpWrite (settingsPath userData @ ''.json'')"
    using that by (simp add: saveSettings_def save_plain)
next
  fix blob
  let ?p = "settingsPath userData"
  let ?fs2 = "fs1(?p \<mapsto> blob)"
  let ?again = "spread defaultSettings (JObj merged)"
  assume h: "isEncryptionAvailable H \<and>
            encryptString H (JSON_stringify H (JObj merged)) = Some blob \<and>
            decryptString H blob = Some (JSON_stringify H (JObj merged)) \<and>
            JSON_parse H (JSON_stringify H (JObj merged)) = Some (JObj merged) \<and>
            \<not> ioFails H OpWrite (settingsPath userData) \<and>
            \<not> ioFails H OpRead (settingsPath userData)"
  have s: "saveSettings H userData (JObj merged) fs1 = (True, ?fs2)"
    using h by (simp add: saveSettings_def save_encrypted)
  have "secureStore_load H ?p JNull ?fs2 = (JObj merged, ?fs2)"
    using h by (intro load_current [where blob = blob and plain = "JSON_stringify H (JObj merged)"]) simp_all
  then have r: "loadSettings H userData ?fs2 = (JObj ?again, ?fs2)"
    by (simp add: loadSettings_spread)
  have d: "distinct (map fst merged)"
    unfolding assms(3) by (rule distinct_spread_defaultSettings)
  have "map_of ?again k = Some x" if "map_of kvs k = Some x" for k x
    using that d assms(2) unfolding assms(3) by (simp add: map_of_spread)
  with s r show "\<exists>fs2 again.
               saveSettings H userData (JObj merged) fs1 = (True, fs2) \<and>
               loadSettings H userData fs2 = (JObj again, fs2) \<and>
               (\<forall>k x. map_of kvs k = Some x \<longrightarrow> map_of again k = Some x)"
    by blast
qed

theorem loadSettings_shallow_merge_witness:
  "loadSettings (sampleHost True) sampleDir
       [''/cfg/settings.enc'' \<mapsto> ''v10'' @ sampleStringify sampleValue] =
     (sampleSettings, [''/cfg/settings.enc'' \<mapsto> ''v10'' @ sampleStringify sampleValue]) \<and>
   (\<exists>fs2 again.
      saveSettings (sampleHost True) sampleDir sampleSettings
          [''/cfg/settings.enc'' \<mapsto> ''v10'' @ sampleStringify sampleValue] = (True, fs2) \<and>
      loadSettings (sampleHost True) sampleDir fs2 = (JObj again, fs2) \<and>
      map_of again ''zoom'' = Some (JNum 2)) \<and>
   saveSettings (sampleHost False) sampleDir sampleSettings legacyFiles =
     (True, legacyFiles(''/cfg/settings.enc.json'' \<mapsto> sampleStringify sampleSettings))"
proof -
  let ?T = "sampleHost True" and ?F = "sampleHost False"
  let ?fs = "[''/cfg/settings.enc'' \<mapsto> ''v10'' @ sampleStringify sampleValue]"
  let ?kvs = "[(''startMinimized'', JBool True), (''zoom'', JNum 2)]"
  let ?m = "[(''startMinimized'', JBool True), (''minimizeToTray'', JBool True),
             (''startAtLogin'', JBool False), (''zoom'', JNum 2)]"
  have d: "distinct (map fst ?kvs)" by simp
  have m: "?m = spread defaultSettings (JObj ?kvs)"
    by (simp add: spread_def defaultSettings_def)
  have s: "sampleSettings = JObj ?m"
    by (simp add: sampleSettings_def)
  have t: "secureStore_load ?T (settingsPath sampleDir) JNull ?fs = (JObj ?kvs, ?fs)"
    by (simp add: store_defs sample_defs)
  have f: "secureStore_load ?F (settingsPath sampleDir) JNull legacyFiles = (JObj ?kvs, legacyFiles)"
    by (simp add: store_defs sample_defs)
  have ht: "isEncryptionAvailable ?T \<and>
      encryptString ?T (JSON_stringify ?T (JObj ?m)) = Some (''v10'' @ sampleStringify sampleSettings) \<and>
      decryptString ?T (''v10'' @ sampleStringify sampleSettings) = Some (JSON_stringify ?T (JObj ?m)) \<and>
      JSON_parse ?T (JSON_stringify ?T (JObj ?m)) = Some (JObj ?m) \<and>
      \<not> ioFails ?T OpWrite (settingsPath sampleDir) \<and>
      \<not> ioFails ?T OpRead (settingsPath sampleDir)"
    by (simp add: sample_defs)
  have hf: "\<not> isEncryptionAvailable ?F \<and> \<not> ioFails ?F OpWrite (settingsPath sampleDir @ ''.json'')"
    by (simp add: sample_defs)
  have p: "settingsPath sampleDir @ ''.json'' = ''/cfg/settings.enc.json''"
    by (simp add: settingsPath_def sampleDir_def)
  have z: "map_of ?kvs ''zoom'' = Some (JNum 2)" by simp
  have jf: "JSON_stringify ?F (JObj ?m) = sampleStringify sampleSettings"
    by (simp add: sampleHost_def s)
  from loadSettings_shallow_merge [OF t d m] ht z
       loadSettings_shallow_merge [OF f d m] hf
  show ?thesis
    unfolding s p jf by blast
qed

subsection \<open>The plaintext fallback\<close>

text \<open>
  C1 (the code departs from the claim). With encryption unavailable, \<open>saveSettings\<close>
  writes the plaintext to \<open>settings.enc.json\<close>, not to the legacy path, which it
  leaves as it was; a \<open>loadSettings\<close> after the save returns what it would have
  returned before the save, so the saved value is not read back.
\<close>

theorem saveSettings_fallback_not_loaded:
  assumes "\<not> isEncryptionAvailable H"
      and "\<not> ioFails H OpWrite (settingsPath userData @ ''.json'')"
  shows "saveSettings H userData v fs =
           (True, fs(userData @ ''/settings.enc.json'' \<mapsto> JSON_stringify H v)) \<and>
         snd (saveSettings H userData v fs) (legacyPathOf (settingsPath userData)) =
           fs (legacyPathOf (settingsPath userData)) \<and>
         fst (loadSettings H userData (snd (saveSettings H userData v fs))) =
           fst (loadSettings H userData fs)"
proof -
  let ?p = "settingsPath userData"
  have q: "userData @ ''/settings.enc.json'' = ?p @ ''.json''"
    by (simp add: settingsPath_def)
  have n: "?p @ ''.json'' \<noteq> legacyPathOf ?p"
    using legacyPathOf_neq_fallback [of ?p] by metis
  have s: "saveSettings H userData v fs = (True, fs(?p @ ''.json'' \<mapsto> JSON_stringify H v))"
    using assms by (simp add: saveSettings_def save_plain)
  have "fst (secureStore_load H ?p JNull (fs(?p @ ''.json'' \<mapsto> JSON_stringify H v))) =
        fst (secureStore_load H ?p JNull fs)"
    using assms(1) n by (intro load_ignores_other_files) simp_all
  then show ?thesis
    using n unfolding q s by (simp add: loadSettings_spread)
qed

theorem saveSettings_fallback_not_loaded_witness:
  "saveSettings (sampleHost False) sampleDir sampleSettings Map.empty =
     (True, [''/cfg/settings.enc.json'' \<mapsto> sampleStringify sampleSettings]) \<and>
   fst (loadSettings (sampleHost False) sampleDir
          [''/cfg/settings.enc.json'' \<mapsto> sampleStringify sampleSettings]) = JObj defaultSettings \<and>
   sampleSettings \<noteq> JObj defaultSettings"
proof -
  have a: "\<not> isEncryptionAvailable (sampleHost False)"
    by (simp add: sampleHost_def)
  have b: "\<not> ioFails (sampleHost False) OpWrite (settingsPath sampleDir @ ''.json'')"
    by (simp add: sampleHost_def)
  have c: "fst (loadSettings (sampleHost False) sampleDir Map.empty) = JObj defaultSettings"
    by (simp add: loadSettings_def store_defs)
  have d: "sampleSettings \<noteq> JObj defaultSettings"
    by (simp add: sampleSettings_def defaultSettings_def)
  have j: "JSON_stringify (sampleHost False) = sampleStringify"
    by (simp add: sampleHost_def)
  have p: "sampleDir @ ''/settings.enc.json'' = ''/cfg/settings.enc.json''"
    by (simp add: sampleDir_def)
  note r = saveSettings_fallback_not_loaded [OF a b, of sampleSettings Map.empty, unfolded j p]
  from r have s: "saveSettings (sampleHost False) sampleDir sampleSettings Map.empty =
      (True, [''/cfg/settings.enc.json'' \<mapsto> sampleStringify sampleSettings])"
    by blast
  from r have "fst (loadSettings (sampleHost False) sampleDir
      (snd (saveSettings (sampleHost False) sampleDir sampleSettings Map.empty))) =
      fst (loadSettings (sampleHost False) sampleDir Map.empty)"
    by blast
  with s c d show ?thesis
    by simp
qed

end
